theory Spec2Isabelle
  imports Complex_Main
begin

section \<open>Python values and exceptions\<close>

text \<open>
  The program is the class \<open>CSVDeduplicator\<close> of \<open>src/main.py\<close>. Exceptions are values:
  every method returns \<open>exn + 'a\<close>, \<open>Inl\<close> being the exception raised. \<open>LibraryError\<close>
  stands for whatever the \<open>dedupe\<close> library raises; the class itself raises only through
  \<open>assert\<close>, a dictionary lookup, a method call on a value without that method, and
  \<open>open\<close>.
\<close>

datatype exn = AssertionError | KeyError | AttributeError | OSError | LibraryError

text \<open>
  A Python \<open>dict\<close> keeps its keys in insertion order, and \<open>d[k] = v\<close> on a key that is
  present replaces the value in place: an association list with distinct keys.
\<close>

type_synonym ('k, 'v) dict = "('k \<times> 'v) list"

fun dict_set :: "('k, 'v) dict \<Rightarrow> 'k \<Rightarrow> 'v \<Rightarrow> ('k, 'v) dict" where
  "dict_set [] k v = [(k, v)]"
| "dict_set ((k', v') # d) k v =
     (if k' = k then (k', v) # d else (k', v') # dict_set d k v)"

text \<open>\<open>dict(pairs)\<close>: the pairs are stored from left to right.\<close>

definition dict_of :: "('k \<times> 'v) list \<Rightarrow> ('k, 'v) dict" where
  "dict_of ps = foldl (\<lambda>d (k, v). dict_set d k v) [] ps"

text \<open>\<open>d[k]\<close> raises \<open>KeyError\<close> on a missing key.\<close>

definition getitem :: "('k, 'v) dict \<Rightarrow> 'k \<Rightarrow> exn + 'v" where
  "getitem d k = (case map_of d k of None \<Rightarrow> Inl KeyError | Some v \<Rightarrow> Inr v)"

definition keys :: "('k, 'v) dict \<Rightarrow> 'k list" where
  "keys d = map fst d"

section \<open>Strings: \<open>str.strip\<close> and \<open>str.lower\<close>\<close>

text \<open>
  A character of the model is a code point below 256: \<open>CHR 0xC9\<close> is U+00C9. On these code
  points \<open>str.isspace\<close> holds for 9 to 13, 28 to 32, 133 (U+0085) and 160 (U+00A0), and
  \<open>str.strip()\<close> with no argument removes the leading and trailing characters for which
  it holds. \<open>str.lower()\<close> adds 32 to \<open>A\<close>..\<open>Z\<close> and to U+00C0..U+00DE except the
  multiplication sign U+00D7, and leaves every other code point below 256 alone. Text
  with a code point from 256 on is not in the model.
\<close>

definition isspace :: "char \<Rightarrow> bool" where
  "isspace c =
     (let n = (of_char c :: nat)
      in (9 \<le> n \<and> n \<le> 13) \<or> (28 \<le> n \<and> n \<le> 32) \<or> n = 133 \<or> n = 160)"

definition strip :: "string \<Rightarrow> string" where
  "strip s = rev (dropWhile isspace (rev (dropWhile isspace s)))"

definition lower_char :: "char \<Rightarrow> char" where
  "lower_char c =
     (let n = (of_char c :: nat)
      in if (65 \<le> n \<and> n \<le> 90) \<or> (192 \<le> n \<and> n \<le> 222 \<and> n \<noteq> 215)
         then char_of (n + 32) else c)"

definition lower :: "string \<Rightarrow> string" where
  "lower s = map lower_char s"

section \<open>\<open>csv.DictReader\<close>\<close>

text \<open>
  The input file is taken as the rows \<open>csv.reader\<close> yields, each a list of strings, the
  header first. \<open>csv.DictReader\<close> takes the first row as \<open>fieldnames\<close>, skips every later
  row that is \<open>[]\<close>, and turns each other row into \<open>dict(zip(fieldnames, row))\<close>; a row
  longer than the header stores the surplus cells as a list under the key \<open>None\<close>
  (\<open>restkey\<close>), a shorter one stores \<open>None\<close> (\<open>restval\<close>) under each header name left
  over. So a key is a string or \<open>None\<close>, and a value is a string, \<open>None\<close> or a list.
\<close>

datatype cell = Str string | NoneVal | Rest "string list"

type_synonym row = "(string option, cell) dict"

definition DictReader_row :: "string list \<Rightarrow> string list \<Rightarrow> row" where
  "DictReader_row fieldnames r =
     (let d = dict_of (zip (map Some fieldnames) (map Str r));
          lf = length fieldnames;
          lr = length r
      in if lf < lr then dict_set d None (Rest (drop lf r))
         else if lf > lr then foldl (\<lambda>d key. dict_set d (Some key) NoneVal) d (drop lr fieldnames)
         else d)"

definition DictReader :: "string list list \<Rightarrow> row list" where
  "DictReader lines =
     (case lines of
        [] \<Rightarrow> []
      | fieldnames # rest \<Rightarrow> map (DictReader_row fieldnames) (filter (\<lambda>r. r \<noteq> []) rest))"

section \<open>\<open>CSVDeduplicator.read_data\<close>\<close>

text \<open>
  \<open>[(k, v.strip().lower()) for (k, v) in row.items()]\<close>: the items are visited in order,
  and \<open>v.strip()\<close> raises \<open>AttributeError\<close> when \<open>v\<close> is \<open>None\<close> or a list.
\<close>

fun clean_items :: "(string option \<times> cell) list \<Rightarrow> exn + (string option \<times> string) list" where
  "clean_items [] = Inr []"
| "clean_items ((k, Str s) # r) =
     (case clean_items r of
        Inl e \<Rightarrow> Inl e
      | Inr c \<Rightarrow> Inr ((k, lower (strip s)) # c))"
| "clean_items ((k, NoneVal) # r) = Inl AttributeError"
| "clean_items ((k, Rest xs) # r) = Inl AttributeError"

type_synonym record_d = "(string option, string) dict"
type_synonym data = "(cell, record_d) dict"

text \<open>
  The loop body: \<open>clean_row\<close>, then \<open>row_id = row["id"]\<close>, then
  \<open>data_d[row_id] = dict(clean_row)\<close>. The key is the value of the row as read.
\<close>

fun read_rows :: "data \<Rightarrow> row list \<Rightarrow> exn + data" where
  "read_rows data_d [] = Inr data_d"
| "read_rows data_d (r # rs) =
     (case clean_items r of
        Inl e \<Rightarrow> Inl e
      | Inr clean_row \<Rightarrow>
          (case getitem r (Some ''id'') of
             Inl e \<Rightarrow> Inl e
           | Inr row_id \<Rightarrow> read_rows (dict_set data_d row_id (dict_of clean_row)) rs))"

text \<open>
  \<open>read_data\<close>: the argument is the content of \<open>input_file\<close>, \<open>None\<close> when no file is
  there (\<open>assert os.path.exists\<close>).
\<close>

definition read_data :: "string list list option \<Rightarrow> exn + data" where
  "read_data input_file =
     (case input_file of
        None \<Rightarrow> Inl AssertionError
      | Some lines \<Rightarrow> read_rows [] (DictReader lines))"

section \<open>The \<open>dedupe\<close> library and the files\<close>

text \<open>
  \<open>dedupe.variables.String(field, has_missing=True)\<close>: a field definition is the field's
  name and its flag.
\<close>

datatype variable = String string bool

text \<open>
  A file holds what was written to it, in order: the object a library writer put there, or the
  list handed to \<open>csv.writer.writerow\<close>. A written cell is a string, a record identifier
  (a key of the data), an integer or a float; floats are only passed on, never computed
  with, and are modelled as reals.
\<close>

datatype pyval = PStr string | PId cell | PInt nat | PFloat real

datatype 'b chunk = Bytes 'b | CsvRow "pyval list"

text \<open>
  The library is a parameter: one function for each entry point the class calls, over
  an opaque deduper state \<open>'d\<close>. \<open>StaticDedupe\<close> is given the content of the file object it
  is constructed from, and nothing else. The methods that change the deduper in place
  return the new deduper.
\<close>

record ('d, 'b) dedupe_lib =
  StaticDedupe :: "'b chunk list \<Rightarrow> exn + 'd"
  Dedupe :: "variable list \<Rightarrow> exn + 'd"
  prepare_training :: "'d \<Rightarrow> data \<Rightarrow> exn + 'd"
  console_label :: "'d \<Rightarrow> exn + 'd"
  train :: "'d \<Rightarrow> exn + 'd"
  write_training :: "'d \<Rightarrow> exn + 'b"
  write_settings :: "'d \<Rightarrow> exn + 'b"
  match :: "'d \<Rightarrow> data \<Rightarrow> real \<Rightarrow> exn + (cell list \<times> real list) list"

datatype call =
  CStaticDedupe | CDedupe | CPrepareTraining | CConsoleLabel | CTrain
  | CWriteTraining | CWriteSettings | CMatch

text \<open>The attributes set once by \<open>__init__\<close>; \<open>fields_attr\<close> is \<open>self.fields\<close>.\<close>

record config =
  input_file :: string
  output_file :: string
  settings_file :: string
  training_file :: string
  fields_attr :: "string list"

text \<open>
  The state a method works on: the attributes \<open>self.deduper\<close> and \<open>self.data\<close>, the files
  by path, the paths that cannot be opened for writing, the file handles that are open
  (in the order they were opened), and the library entry points called so far.
\<close>

record ('d, 'b) state =
  deduper :: "'d option"
  data :: data
  fs :: "string \<Rightarrow> 'b chunk list option"
  readonly :: "string list"
  opened :: "string list"
  calls :: "call list"

type_synonym ('d, 'b, 'a) action = "('d, 'b) state \<Rightarrow> (exn + 'a) \<times> ('d, 'b) state"

text \<open>Sequencing: an exception ends the method, and the state reached so far stays.\<close>

definition and_then ::
  "('d, 'b, 'a) action \<Rightarrow> ('a \<Rightarrow> ('d, 'b, 'c) action) \<Rightarrow> ('d, 'b, 'c) action" where
  "and_then m f st = (case m st of (Inl e, st') \<Rightarrow> (Inl e, st') | (Inr x, st') \<Rightarrow> f x st')"

definition lib_call :: "call \<Rightarrow> exn + 'a \<Rightarrow> ('d, 'b, 'a) action" where
  "lib_call c r st = (r, st\<lparr>calls := calls st @ [c]\<rparr>)"

text \<open>\<open>self.deduper.m(...)\<close>: \<open>AttributeError\<close> while \<open>self.deduper\<close> is \<open>None\<close>.\<close>

definition get_deduper :: "('d, 'b, 'd) action" where
  "get_deduper st = (case deduper st of None \<Rightarrow> (Inl AttributeError, st) | Some d \<Rightarrow> (Inr d, st))"

definition set_deduper :: "'d \<Rightarrow> ('d, 'b, unit) action" where
  "set_deduper d st = (Inr (), st\<lparr>deduper := Some d\<rparr>)"

definition deduper_method :: "call \<Rightarrow> ('d \<Rightarrow> exn + 'd) \<Rightarrow> ('d, 'b, unit) action" where
  "deduper_method c f =
     and_then get_deduper (\<lambda>d. and_then (lib_call c (f d)) set_deduper)"

text \<open>
  \<open>open(path, "rb")\<close> gives the content and leaves a handle open; \<open>open(path, "w")\<close> creates
  or empties the file. Closing releases the handle opened last on that path.
\<close>

definition open_rb :: "string \<Rightarrow> ('d, 'b, 'b chunk list) action" where
  "open_rb path st =
     (case fs st path of
        None \<Rightarrow> (Inl OSError, st)
      | Some content \<Rightarrow> (Inr content, st\<lparr>opened := opened st @ [path]\<rparr>))"

definition open_w :: "string \<Rightarrow> ('d, 'b, unit) action" where
  "open_w path st =
     (if path \<in> set (readonly st) then (Inl OSError, st)
      else (Inr (), st\<lparr>fs := (fs st)(path := Some []), opened := opened st @ [path]\<rparr>))"

definition write_chunk :: "string \<Rightarrow> 'b chunk \<Rightarrow> ('d, 'b, unit) action" where
  "write_chunk path c st =
     (Inr (), st\<lparr>fs := (fs st)(path := Some ((case fs st path of None \<Rightarrow> [] | Some cs \<Rightarrow> cs) @ [c]))\<rparr>)"

definition close :: "string \<Rightarrow> ('d, 'b) state \<Rightarrow> ('d, 'b) state" where
  "close path st = st\<lparr>opened := rev (remove1 path (rev (opened st)))\<rparr>"

text \<open>\<open>with open(path, "w") as f: body\<close>: the handle is closed however the body ends.\<close>

definition with_open_w :: "string \<Rightarrow> ('d, 'b, 'a) action \<Rightarrow> ('d, 'b, 'a) action" where
  "with_open_w path body st =
     (case open_w path st of
        (Inl e, st') \<Rightarrow> (Inl e, st')
      | (Inr _, st') \<Rightarrow> (case body st' of (r, st'') \<Rightarrow> (r, close path st'')))"

section \<open>The methods of \<open>CSVDeduplicator\<close>\<close>

text \<open>\<open>__init__\<close>: \<open>self.deduper = None\<close>, \<open>self.data = self.read_data()\<close>. The input file is
  given apart from the other files, as the rows \<open>csv.reader\<close> yields.\<close>

definition init ::
  "string list list option \<Rightarrow> (string \<Rightarrow> 'b chunk list option) \<Rightarrow> string list \<Rightarrow> exn + ('d, 'b) state" where
  "init input files ro =
     (case read_data input of
        Inl e \<Rightarrow> Inl e
      | Inr data_d \<Rightarrow>
          Inr \<lparr>deduper = None, data = data_d, fs = files, readonly = ro, opened = [], calls = []\<rparr>)"

text \<open>\<open>define_fields\<close>: one \<open>String(field, has_missing=True)\<close> for each name in \<open>self.fields\<close>.\<close>

definition define_fields :: "config \<Rightarrow> ('d, 'b) state \<Rightarrow> variable list" where
  "define_fields self st = map (\<lambda>field. String field True) (fields_attr self)"

definition active_learning :: "('d, 'b) dedupe_lib \<Rightarrow> ('d, 'b, unit) action" where
  "active_learning L = deduper_method CConsoleLabel (console_label L)"

definition save_settings_and_training ::
  "config \<Rightarrow> ('d, 'b) dedupe_lib \<Rightarrow> ('d, 'b, unit) action" where
  "save_settings_and_training self L =
     and_then
       (with_open_w (training_file self)
          (and_then get_deduper (\<lambda>d.
           and_then (lib_call CWriteTraining (write_training L d)) (\<lambda>b.
           write_chunk (training_file self) (Bytes b)))))
       (\<lambda>_. with_open_w (settings_file self)
          (and_then get_deduper (\<lambda>d.
           and_then (lib_call CWriteSettings (write_settings L d)) (\<lambda>b.
           write_chunk (settings_file self) (Bytes b)))))"

definition setup_deduper :: "config \<Rightarrow> ('d, 'b) dedupe_lib \<Rightarrow> ('d, 'b, unit) action" where
  "setup_deduper self L st =
     (if fs st (settings_file self) \<noteq> None then
        and_then (open_rb (settings_file self)) (\<lambda>f.
        and_then (lib_call CStaticDedupe (StaticDedupe L f)) set_deduper) st
      else
        and_then (lib_call CDedupe (Dedupe L (define_fields self st))) (\<lambda>d.
        and_then (set_deduper d) (\<lambda>_.
        and_then (deduper_method CPrepareTraining (\<lambda>d. prepare_training L d (data st))) (\<lambda>_.
        and_then (active_learning L) (\<lambda>_.
        and_then (deduper_method CTrain (train L)) (\<lambda>_.
        save_settings_and_training self L))))) st)"

text \<open>
  \<open>deduplicate\<close>: the header, then for each cluster, numbered from 0, one row for each pair
  of \<open>zip(records, scores)\<close>.
\<close>

definition header :: "pyval list" where
  "header = [PStr ''id'', PStr ''Cluster ID'', PStr ''confidence_score'']"

text \<open>The nested loop; \<open>cluster_id\<close> is the counter of \<open>enumerate\<close>, which starts at 0.\<close>

fun cluster_rows_from :: "nat \<Rightarrow> (cell list \<times> real list) list \<Rightarrow> pyval list list" where
  "cluster_rows_from cluster_id [] = []"
| "cluster_rows_from cluster_id ((records, scores) # clustered_dupes) =
     map (\<lambda>(record_id, score). [PId record_id, PInt cluster_id, PFloat score])
         (zip records scores)
     @ cluster_rows_from (Suc cluster_id) clustered_dupes"

definition cluster_rows :: "(cell list \<times> real list) list \<Rightarrow> pyval list list" where
  "cluster_rows clustered_dupes = cluster_rows_from 0 clustered_dupes"

fun write_rows :: "string \<Rightarrow> pyval list list \<Rightarrow> ('d, 'b, unit) action" where
  "write_rows path [] st = (Inr (), st)"
| "write_rows path (r # rs) st = and_then (write_chunk path (CsvRow r)) (\<lambda>_. write_rows path rs) st"

definition deduplicate :: "config \<Rightarrow> ('d, 'b) dedupe_lib \<Rightarrow> ('d, 'b, unit) action" where
  "deduplicate self L =
     and_then get_deduper (\<lambda>d st.
     and_then (lib_call CMatch (match L d (data st) (1 / 2))) (\<lambda>clustered_dupes.
     with_open_w (output_file self)
       (write_rows (output_file self) (header # cluster_rows clustered_dupes))) st)"

definition run :: "config \<Rightarrow> ('d, 'b) dedupe_lib \<Rightarrow> ('d, 'b, unit) action" where
  "run self L = and_then (setup_deduper self L) (\<lambda>_. deduplicate self L)"

section \<open>Reading an output file back\<close>

text \<open>
  The columns of the rows \<open>deduplicate\<close> writes after the header: the record identifiers
  and the scores, in the order written.
\<close>

fun id_column :: "'b chunk list \<Rightarrow> cell list" where
  "id_column [] = []"
| "id_column (CsvRow [PId record_id, PInt cluster_id, PFloat score] # cs) = record_id # id_column cs"
| "id_column (c # cs) = id_column cs"


section \<open>A small library and small inputs\<close>

text \<open>
  A library to run the class on: a deduper is the list of field names it was built for,
  a settings file holds that list, and \<open>StaticDedupe\<close> reads it back. Its matcher links
  the records \<open>1\<close> and \<open>2\<close> with score 0.9 and returns that one cluster; like the
  matcher of \<open>dedupe\<close>, it returns the clusters of duplicates only.
\<close>

definition example_lib :: "(string list, string list) dedupe_lib" where
  "example_lib =
     \<lparr>StaticDedupe = (\<lambda>content. case content of [Bytes b] \<Rightarrow> Inr b | _ \<Rightarrow> Inl LibraryError),
      Dedupe = (\<lambda>vs. Inr (map (\<lambda>v. case v of String field m \<Rightarrow> field) vs)),
      prepare_training = (\<lambda>d data_d. Inr d),
      console_label = (\<lambda>d. Inr d),
      train = (\<lambda>d. Inr d),
      write_training = (\<lambda>d. Inr d),
      write_settings = (\<lambda>d. Inr d),
      match = (\<lambda>d data_d threshold. Inr [([Str ''1'', Str ''2''], [9 / 10, 9 / 10])])\<rparr>"

text \<open>The same library with a matcher that also returns the record \<open>3\<close>, as a cluster of one.\<close>

definition example_lib_all :: "(string list, string list) dedupe_lib" where
  "example_lib_all =
     example_lib\<lparr>match := (\<lambda>d data_d threshold.
        Inr [([Str ''1'', Str ''2''], [9 / 10, 9 / 10]), ([Str ''3''], [1])])\<rparr>"

definition example_config :: config where
  "example_config =
     \<lparr>input_file = ''in.csv'', output_file = ''out.csv'', settings_file = ''settings'',
      training_file = ''training.json'', fields_attr = [''name'']\<rparr>"

definition example_input :: "string list list" where
  "example_input = [[''id'', ''name''], [''1'', ''Ann''], [''2'', ''ann ''], [''3'', ''Bob'']]"

definition example_data :: data where
  "example_data =
     [(Str ''1'', [(Some ''id'', ''1''), (Some ''name'', ''ann'')]),
      (Str ''2'', [(Some ''id'', ''2''), (Some ''name'', ''ann'')]),
      (Str ''3'', [(Some ''id'', ''3''), (Some ''name'', ''bob'')])]"

text \<open>The state after \<open>__init__\<close> on that input, without and with a saved settings file; the
  saved one was written for the field \<open>address\<close>.\<close>

definition example_state :: "(string list, string list) state" where
  "example_state =
     \<lparr>deduper = None, data = example_data, fs = (\<lambda>path. None), readonly = [],
      opened = [], calls = []\<rparr>"

definition example_saved_state :: "(string list, string list) state" where
  "example_saved_state =
     \<lparr>deduper = None, data = example_data,
      fs = (\<lambda>path. if path = ''settings'' then Some [Bytes [''address'']] else None),
      readonly = [], opened = [], calls = []\<rparr>"

section \<open>Facts about dictionaries\<close>

lemma map_of_dict_set: "map_of (dict_set d k v) = (map_of d)(k \<mapsto> v)"
  by (induction d k v rule: dict_set.induct) (auto simp: fun_eq_iff)

lemma keys_dict_set: "fst ` set (dict_set d k v) = insert k (fst ` set d)"
  by (induction d k v rule: dict_set.induct) auto

lemma distinct_dict_set: "distinct (map fst d) \<Longrightarrow> distinct (map fst (dict_set d k v))"
  by (induction d k v rule: dict_set.induct) (auto simp: keys_dict_set)

lemma set_dict_set: "set (dict_set d k v) \<subseteq> insert (k, v) (set d)"
  by (induction d k v rule: dict_set.induct) auto

lemma dict_set_fresh: "k \<notin> fst ` set d \<Longrightarrow> dict_set d k v = d @ [(k, v)]"
  by (induction d k v rule: dict_set.induct) auto

lemma foldl_dict_set_distinct:
  "distinct (map fst d) \<Longrightarrow> distinct (map fst (foldl (\<lambda>d (k, v). dict_set d k v) d ps))"
  by (induction ps arbitrary: d) (auto simp: distinct_dict_set)

lemma distinct_dict_of: "distinct (map fst (dict_of ps))"
  by (simp add: dict_of_def foldl_dict_set_distinct)

lemma foldl_dict_set_fresh:
  "distinct (map fst (d @ ps)) \<Longrightarrow> foldl (\<lambda>d (k, v). dict_set d k v) d ps = d @ ps"
proof (induction ps arbitrary: d)
  case Nil
  then show ?case by simp
next
  case (Cons p ps)
  obtain k v where p: "p = (k, v)" by (cases p)
  from Cons.prems have fresh: "k \<notin> fst ` set d" by (auto simp: p)
  from Cons.prems have "distinct (map fst ((d @ [(k, v)]) @ ps))" by (simp add: p)
  from Cons.IH [OF this] show ?case by (simp add: p dict_set_fresh [OF fresh])
qed

lemma dict_of_distinct: "distinct (map fst ps) \<Longrightarrow> dict_of ps = ps"
  using foldl_dict_set_fresh [of "[]" ps] by (simp add: dict_of_def)

lemma dict_set_map_val:
  "map (\<lambda>(k, v). (k, g v)) (dict_set d k v) = dict_set (map (\<lambda>(k, v). (k, g v)) d) k (g v)"
  by (induction d k v rule: dict_set.induct) auto

lemma foldl_dict_set_map_val:
  "map (\<lambda>(k, v). (k, g v)) (foldl (\<lambda>d (k, v). dict_set d k v) d ps)
   = foldl (\<lambda>d (k, v). dict_set d k v) (map (\<lambda>(k, v). (k, g v)) d) (map (\<lambda>(k, v). (k, g v)) ps)"
  by (induction ps arbitrary: d) (auto simp: dict_set_map_val)

lemma dict_of_map_val:
  "map (\<lambda>(k, v). (k, g v)) (dict_of ps) = dict_of (map (\<lambda>(k, v). (k, g v)) ps)"
  by (simp add: dict_of_def foldl_dict_set_map_val)

section \<open>Facts about reading rows\<close>

lemma clean_items_map_Str:
  "clean_items (map (\<lambda>(k, s). (k, Str s)) ps) = Inr (map (\<lambda>(k, s). (k, lower (strip s))) ps)"
  by (induction ps) auto

lemma clean_items_bad:
  "(k, v) \<in> set r \<Longrightarrow> \<forall>s. v \<noteq> Str s \<Longrightarrow> clean_items r = Inl AttributeError"
  by (induction r rule: clean_items.induct) (auto split: sum.splits)

lemma clean_items_error: "clean_items r = Inl e \<Longrightarrow> e = AttributeError"
  by (induction r arbitrary: e rule: clean_items.induct) (auto split: sum.splits)

lemma zip_map_Str: "zip ks (map Str r) = map (\<lambda>(k, s). (k, Str s)) (zip ks r)"
  by (simp add: zip_map2)

lemma zip_map_clean:
  "zip ks (map (\<lambda>s. lower (strip s)) r) = map (\<lambda>(k, s). (k, lower (strip s))) (zip ks r)"
  by (simp add: zip_map2)


lemma keys_foldl_dict_set:
  "fst ` set (foldl (\<lambda>d (k, v). dict_set d k v) d ps) = fst ` set d \<union> fst ` set ps"
proof (induction ps arbitrary: d)
  case Nil
  then show ?case by simp
next
  case (Cons p ps)
  obtain k v where p: "p = (k, v)" by (cases p)
  have "fst ` set (foldl (\<lambda>d (k, v). dict_set d k v) (dict_set d k v) ps)
        = insert k (fst ` set d) \<union> fst ` set ps"
    by (simp only: Cons.IH keys_dict_set)
  then show ?case by (simp add: p)
qed

lemma keys_dict_of: "fst ` set (dict_of ps) = fst ` set ps"
  by (simp add: dict_of_def keys_foldl_dict_set)

lemma map_of_foldl_dict_set:
  "map_of (foldl (\<lambda>d (k, v). dict_set d k v) d ps) = map_of d ++ map_of (rev ps)"
  by (induction ps arbitrary: d) (auto simp: map_of_dict_set map_add_def fun_eq_iff split: option.splits)

lemma DictReader_row_eq_length:
  "length r = length fieldnames \<Longrightarrow>
   DictReader_row fieldnames r = dict_of (zip (map Some fieldnames) (map Str r))"
  by (simp add: DictReader_row_def)

lemma clean_dict_of_Str:
  "clean_items (dict_of (zip ks (map Str r)))
   = Inr (dict_of (zip ks (map (\<lambda>s. lower (strip s)) r)))"
proof -
  have "dict_of (zip ks (map Str r)) = map (\<lambda>(k, s). (k, Str s)) (dict_of (zip ks r))"
    by (simp add: zip_map_Str dict_of_map_val)
  moreover have "dict_of (zip ks (map (\<lambda>s. lower (strip s)) r))
      = map (\<lambda>(k, s). (k, lower (strip s))) (dict_of (zip ks r))"
    by (simp add: zip_map_clean dict_of_map_val)
  ultimately show ?thesis by (simp add: clean_items_map_Str)
qed

lemma clean_row_eq_length:
  "length r = length fieldnames \<Longrightarrow>
   clean_items (DictReader_row fieldnames r)
   = Inr (dict_of (zip (map Some fieldnames) (map (\<lambda>s. lower (strip s)) r)))"
  by (simp add: DictReader_row_eq_length clean_dict_of_Str)

lemma dict_of_dict_of: "dict_of (dict_of ps) = dict_of ps"
  by (simp add: dict_of_distinct distinct_dict_of)

lemma foldl_restval_last:
  "ks \<noteq> [] \<Longrightarrow>
   map_of (foldl (\<lambda>d key. dict_set d (Some key) NoneVal) d ks) (Some (last ks)) = Some NoneVal"
  by (cases ks rule: rev_cases) (auto simp: map_of_dict_set)

lemma clean_row_long:
  assumes "length fieldnames < length r"
  shows "clean_items (DictReader_row fieldnames r) = Inl AttributeError"
proof -
  let ?d = "dict_of (zip (map Some fieldnames) (map Str r))"
  let ?v = "Rest (drop (length fieldnames) r)"
  have "map_of (dict_set ?d None ?v) None = Some ?v" by (simp add: map_of_dict_set)
  then have "(None, ?v) \<in> set (dict_set ?d None ?v)" by (rule map_of_SomeD)
  then have "clean_items (dict_set ?d None ?v) = Inl AttributeError"
    by (rule clean_items_bad) simp
  with assms show ?thesis by (simp add: DictReader_row_def)
qed

lemma clean_row_short:
  assumes "length r < length fieldnames"
  shows "clean_items (DictReader_row fieldnames r) = Inl AttributeError"
proof -
  let ?d = "dict_of (zip (map Some fieldnames) (map Str r))"
  let ?ks = "drop (length r) fieldnames"
  let ?d' = "foldl (\<lambda>d key. dict_set d (Some key) NoneVal) ?d ?ks"
  from assms have "?ks \<noteq> []" by simp
  then have "map_of ?d' (Some (last ?ks)) = Some NoneVal" by (rule foldl_restval_last)
  then have "(Some (last ?ks), NoneVal) \<in> set ?d'" by (rule map_of_SomeD)
  then have "clean_items ?d' = Inl AttributeError"
    by (rule clean_items_bad) simp
  with assms show ?thesis by (simp add: DictReader_row_def)
qed

lemma clean_row_Inr_length:
  "clean_items (DictReader_row fieldnames r) = Inr c \<Longrightarrow> length r = length fieldnames"
  using clean_row_long [of fieldnames r] clean_row_short [of r fieldnames]
  by (cases "length r" "length fieldnames" rule: linorder_cases) auto

lemma getitem_row_index:
  assumes len: "length r = length fieldnames"
    and get: "getitem (DictReader_row fieldnames r) (Some name) = Inr v"
  shows "\<exists>i < length r. fieldnames ! i = name \<and> v = Str (r ! i)"
proof -
  from get have "map_of (dict_of (zip (map Some fieldnames) (map Str r))) (Some name) = Some v"
    by (simp add: DictReader_row_eq_length [OF len] getitem_def split: option.splits)
  then have "map_of (rev (zip (map Some fieldnames) (map Str r))) (Some name) = Some v"
    by (simp add: dict_of_def map_of_foldl_dict_set)
  then have "(Some name, v) \<in> set (zip (map Some fieldnames) (map Str r))"
    by (auto dest: map_of_SomeD)
  then show ?thesis using len by (auto simp: set_zip)
qed

lemma getitem_row_missing:
  assumes len: "length r = length fieldnames" and no: "name \<notin> set fieldnames"
  shows "getitem (DictReader_row fieldnames r) (Some name) = Inl KeyError"
proof (cases "getitem (DictReader_row fieldnames r) (Some name)")
  case (Inl e)
  then show ?thesis by (simp add: getitem_def split: option.splits)
next
  case (Inr v)
  from getitem_row_index [OF len Inr] no len show ?thesis by auto
qed


lemma map_of_dict_of_zip_map:
  "map_of (dict_of (zip ks (map g vs))) k = map_option g (map_of (dict_of (zip ks vs)) k)"
proof -
  have "dict_of (zip ks (map g vs)) = map (\<lambda>(k, v). (k, g v)) (dict_of (zip ks vs))"
    by (simp add: zip_map2 dict_of_map_val)
  then show ?thesis by (simp add: map_of_map)
qed

lemma row_field_clean:
  assumes len: "length r = length fieldnames"
    and get: "getitem (DictReader_row fieldnames r) (Some name) = Inr (Str raw)"
  shows "map_of (dict_of (zip (map Some fieldnames) (map (\<lambda>s. lower (strip s)) r))) (Some name)
         = Some (lower (strip raw))"
proof -
  from get have "map_of (dict_of (zip (map Some fieldnames) (map Str r))) (Some name) = Some (Str raw)"
    by (simp add: DictReader_row_eq_length [OF len] getitem_def split: option.splits)
  then have "map_of (dict_of (zip (map Some fieldnames) r)) (Some name) = Some raw"
    by (auto simp: map_of_dict_of_zip_map)
  then show ?thesis by (simp add: map_of_dict_of_zip_map)
qed

lemma read_rows_append:
  "read_rows d (rs @ rs') = (case read_rows d rs of Inl e \<Rightarrow> Inl e | Inr d1 \<Rightarrow> read_rows d1 rs')"
  by (induction rs arbitrary: d) (auto split: sum.splits)

lemma read_rows_ok_rows:
  "read_rows d rs = Inr d' \<Longrightarrow> r \<in> set rs \<Longrightarrow>
   \<exists>c k. clean_items r = Inr c \<and> getitem r (Some ''id'') = Inr k"
  by (induction rs arbitrary: d) (auto split: sum.splits)

lemma read_rows_keys:
  "read_rows d rs = Inr d' \<Longrightarrow>
   fst ` set d' = fst ` set d \<union> {k. \<exists>r\<in>set rs. getitem r (Some ''id'') = Inr k}"
proof (induction rs arbitrary: d)
  case Nil
  then show ?case by simp
next
  case (Cons r rs)
  from Cons.prems obtain c k where c: "clean_items r = Inr c"
    and k: "getitem r (Some ''id'') = Inr k"
    and rest: "read_rows (dict_set d k (dict_of c)) rs = Inr d'"
    by (auto split: sum.splits)
  from Cons.IH [OF rest] have
    "fst ` set d' = insert k (fst ` set d) \<union> {k. \<exists>r\<in>set rs. getitem r (Some ''id'') = Inr k}"
    by (simp only: keys_dict_set)
  with k show ?case by auto
qed

lemma read_rows_distinct:
  "distinct (map fst d) \<Longrightarrow> read_rows d rs = Inr d' \<Longrightarrow> distinct (map fst d')"
proof (induction rs arbitrary: d)
  case Nil
  then show ?case by simp
next
  case (Cons r rs)
  from Cons.prems(2) obtain c k where
    rest: "read_rows (dict_set d k (dict_of c)) rs = Inr d'"
    by (auto split: sum.splits)
  from Cons.prems(1) have "distinct (map fst (dict_set d k (dict_of c)))"
    by (rule distinct_dict_set)
  from Cons.IH [OF this rest] show ?case .
qed

lemma read_rows_entries:
  "read_rows d rs = Inr d' \<Longrightarrow> (k, rec) \<in> set d' \<Longrightarrow>
   (k, rec) \<in> set d \<or>
   (\<exists>r\<in>set rs. \<exists>c. getitem r (Some ''id'') = Inr k \<and> clean_items r = Inr c \<and> rec = dict_of c)"
proof (induction rs arbitrary: d)
  case Nil
  then show ?case by simp
next
  case (Cons r rs)
  from Cons.prems(1) obtain c k' where c: "clean_items r = Inr c"
    and k': "getitem r (Some ''id'') = Inr k'"
    and rest: "read_rows (dict_set d k' (dict_of c)) rs = Inr d'"
    by (auto split: sum.splits)
  from Cons.IH [OF rest Cons.prems(2)] show ?case
  proof
    assume "(k, rec) \<in> set (dict_set d k' (dict_of c))"
    with set_dict_set [of d k' "dict_of c"] have "(k, rec) = (k', dict_of c) \<or> (k, rec) \<in> set d"
      by auto
    with c k' show ?thesis by auto
  next
    assume "\<exists>r\<in>set rs. \<exists>c. getitem r (Some ''id'') = Inr k \<and> clean_items r = Inr c \<and> rec = dict_of c"
    then show ?thesis by auto
  qed
qed

lemma read_rows_error:
  "read_rows d rs = Inl e \<Longrightarrow> e = KeyError \<or> e = AttributeError"
  by (induction rs arbitrary: d)
     (auto split: sum.splits option.splits simp: getitem_def dest: clean_items_error)

lemma read_data_Some:
  "read_data (Some (fieldnames # rest))
   = read_rows [] (map (DictReader_row fieldnames) (filter (\<lambda>r. r \<noteq> []) rest))"
  by (simp add: read_data_def DictReader_def)

lemma read_data_distinct: "read_data input = Inr data_d \<Longrightarrow> distinct (map fst data_d)"
  using read_rows_distinct [of "[]"]
  by (auto simp: read_data_def split: option.splits)

lemma read_data_rows_ok:
  assumes ok: "read_data (Some (fieldnames # rest)) = Inr data_d"
    and r: "r \<in> set rest" "r \<noteq> []"
  shows "length r = length fieldnames \<and>
         (\<exists>k. getitem (DictReader_row fieldnames r) (Some ''id'') = Inr k \<and> k \<in> fst ` set data_d)"
proof -
  let ?rows = "map (DictReader_row fieldnames) (filter (\<lambda>r. r \<noteq> []) rest)"
  from ok have rr: "read_rows [] ?rows = Inr data_d" by (simp add: read_data_Some)
  from r have mem: "DictReader_row fieldnames r \<in> set ?rows" by simp
  from read_rows_ok_rows [OF rr mem] obtain c k
    where c: "clean_items (DictReader_row fieldnames r) = Inr c"
      and k: "getitem (DictReader_row fieldnames r) (Some ''id'') = Inr k" by blast
  from read_rows_keys [OF rr] k mem have "k \<in> fst ` set data_d" by blast
  with clean_row_Inr_length [OF c] k show ?thesis by blast
qed

lemma read_data_entries:
  assumes ok: "read_data (Some (fieldnames # rest)) = Inr data_d"
    and e: "(k, rec) \<in> set data_d"
  shows "\<exists>r\<in>set rest. r \<noteq> [] \<and> length r = length fieldnames \<and>
           getitem (DictReader_row fieldnames r) (Some ''id'') = Inr k \<and>
           rec = dict_of (zip (map Some fieldnames) (map (\<lambda>s. lower (strip s)) r))"
proof -
  let ?rows = "map (DictReader_row fieldnames) (filter (\<lambda>r. r \<noteq> []) rest)"
  from ok have rr: "read_rows [] ?rows = Inr data_d" by (simp add: read_data_Some)
  from read_rows_entries [OF rr e] obtain r c where r: "r \<in> set rest" "r \<noteq> []"
    and k: "getitem (DictReader_row fieldnames r) (Some ''id'') = Inr k"
    and c: "clean_items (DictReader_row fieldnames r) = Inr c"
    and rec: "rec = dict_of c" by auto
  have len: "length r = length fieldnames" by (rule clean_row_Inr_length [OF c])
  from c have "c = dict_of (zip (map Some fieldnames) (map (\<lambda>s. lower (strip s)) r))"
    by (simp add: clean_row_eq_length [OF len])
  with rec have "rec = dict_of (zip (map Some fieldnames) (map (\<lambda>s. lower (strip s)) r))"
    by (simp add: dict_of_dict_of)
  with r len k show ?thesis by blast
qed

section \<open>Facts about the methods\<close>

lemma write_rows_fs:
  "fs st path = Some cs \<Longrightarrow>
   write_rows path rows st = (Inr (), st\<lparr>fs := (fs st)(path := Some (cs @ map CsvRow rows))\<rparr>)"
proof (induction rows arbitrary: st cs)
  case Nil
  then have "(fs st)(path := Some cs) = fs st" by auto
  then show ?case by simp
next
  case (Cons r rows)
  let ?st1 = "st\<lparr>fs := (fs st)(path := Some (cs @ [CsvRow r]))\<rparr>"
  have "fs ?st1 path = Some (cs @ [CsvRow r])" by simp
  from Cons.IH [OF this]
  have b: "write_rows path rows ?st1
        = (Inr (), ?st1\<lparr>fs := (fs ?st1)(path := Some ((cs @ [CsvRow r]) @ map CsvRow rows))\<rparr>)" .
  have c: "?st1\<lparr>fs := (fs ?st1)(path := Some ((cs @ [CsvRow r]) @ map CsvRow rows))\<rparr>
        = st\<lparr>fs := (fs st)(path := Some (cs @ map CsvRow (r # rows)))\<rparr>" by simp
  have a: "write_rows path (r # rows) st = write_rows path rows ?st1"
    by (simp add: and_then_def write_chunk_def Cons.prems)
  show ?case by (simp only: a b c)
qed

lemma close_after_open: "rev (remove1 path (rev (hs @ [path]))) = hs"
  by simp

lemma deduplicate_ok:
  assumes d: "deduper st = Some d"
    and m: "match L d (data st) (1 / 2) = Inr clusters"
    and w: "output_file self \<notin> set (readonly st)"
  shows "deduplicate self L st =
           (Inr (), st\<lparr>calls := calls st @ [CMatch],
                       fs := (fs st)(output_file self := Some (map CsvRow (header # cluster_rows clusters)))\<rparr>)"
proof -
  let ?st1 = "st\<lparr>calls := calls st @ [CMatch]\<rparr>"
  let ?st2 = "?st1\<lparr>fs := (fs ?st1)(output_file self := Some []), opened := opened ?st1 @ [output_file self]\<rparr>"
  have "fs ?st2 (output_file self) = Some []" by simp
  from write_rows_fs [OF this, of "header # cluster_rows clusters"]
  show ?thesis using d m w
    by (simp add: deduplicate_def and_then_def get_deduper_def lib_call_def with_open_w_def
        open_w_def close_def)
qed

lemma id_column_rows:
  "id_column (map (CsvRow \<circ> (\<lambda>(record_id, score). [PId record_id, PInt c, PFloat score])) ps @ cs)
   = map fst ps @ id_column cs"
  by (induction ps) auto


lemma id_column_rows_from:
  "id_column (map CsvRow (cluster_rows_from n clusters))
   = concat (map (\<lambda>(records, scores). map fst (zip records scores)) clusters)"
  by (induction n clusters rule: cluster_rows_from.induct) (simp_all add: id_column_rows)


lemma id_column_output:
  "id_column (map CsvRow (header # cluster_rows clusters))
   = concat (map (\<lambda>(records, scores). map fst (zip records scores)) clusters)"
  using id_column_rows_from [of 0 clusters]
  by (simp add: header_def cluster_rows_def)


lemma setup_deduper_saved:
  assumes "fs st (settings_file self) = Some content"
  shows "setup_deduper self L st =
    (case StaticDedupe L content of
       Inl e \<Rightarrow> (Inl e, st\<lparr>opened := opened st @ [settings_file self], calls := calls st @ [CStaticDedupe]\<rparr>)
     | Inr d \<Rightarrow> (Inr (), st\<lparr>opened := opened st @ [settings_file self], calls := calls st @ [CStaticDedupe],
                             deduper := Some d\<rparr>))"
  using assms
  by (simp add: setup_deduper_def and_then_def open_rb_def lib_call_def set_deduper_def split: sum.splits)

lemma with_open_w_opened:
  assumes "\<And>s r s'. body s = (r, s') \<Longrightarrow> opened s' = opened s"
  shows "opened (snd (with_open_w path body st)) = opened st"
proof (cases "path \<in> set (readonly st)")
  case True
  then show ?thesis by (simp add: with_open_w_def open_w_def)
next
  case False
  let ?st1 = "st\<lparr>fs := (fs st)(path := Some []), opened := opened st @ [path]\<rparr>"
  obtain r s' where b: "body ?st1 = (r, s')" by (cases "body ?st1")
  from assms [OF b] have "opened s' = opened st @ [path]" by simp
  with False b show ?thesis by (simp add: with_open_w_def open_w_def close_def)
qed

lemma write_body_opened:
  "and_then get_deduper (\<lambda>d. and_then (lib_call c (f d)) (\<lambda>b. write_chunk path (Bytes b))) s = (r, s')
   \<Longrightarrow> opened s' = opened s"
  by (auto simp: and_then_def get_deduper_def lib_call_def write_chunk_def split: option.splits sum.splits)

lemma save_settings_and_training_releases:
  "opened (snd (save_settings_and_training self L st)) = opened st"
proof -
  let ?b1 = "and_then get_deduper (\<lambda>d.
           and_then (lib_call CWriteTraining (write_training L d)) (\<lambda>b.
           write_chunk (training_file self) (Bytes b)))"
  let ?b2 = "and_then get_deduper (\<lambda>d.
           and_then (lib_call CWriteSettings (write_settings L d)) (\<lambda>b.
           write_chunk (settings_file self) (Bytes b)))"
  have o1: "opened (snd (with_open_w (training_file self) ?b1 st)) = opened st"
    by (rule with_open_w_opened) (rule write_body_opened)
  obtain r1 st1 where w1: "with_open_w (training_file self) ?b1 st = (r1, st1)"
    by (cases "with_open_w (training_file self) ?b1 st")
  with o1 have o1': "opened st1 = opened st" by simp
  have o2: "opened (snd (with_open_w (settings_file self) ?b2 st1)) = opened st1"
    by (rule with_open_w_opened) (rule write_body_opened)
  show ?thesis using w1 o1' o2
    by (cases r1) (simp_all add: save_settings_and_training_def and_then_def)
qed

section \<open>More facts about reading\<close>

lemma strip_all_space:
  assumes "\<forall>c\<in>set s. isspace c"
  shows "strip s = []"
proof -
  from assms have h: "dropWhile isspace s = []" by (induction s) auto
  show ?thesis unfolding strip_def h by simp
qed


lemma read_rows_last_wins:
  assumes "read_rows d (rs @ [r]) = Inr d'"
  shows "\<exists>c k. clean_items r = Inr c \<and> getitem r (Some ''id'') = Inr k \<and>
               map_of d' k = Some (dict_of c)"
proof -
  from assms obtain d1 where "read_rows d1 [r] = Inr d'"
    by (auto simp: read_rows_append split: sum.splits)
  then show ?thesis by (auto split: sum.splits simp: map_of_dict_set)
qed

lemma read_rows_no_id_clean:
  assumes "rs \<noteq> []" and "\<forall>r\<in>set rs. getitem r (Some ''id'') = Inl KeyError"
    and "\<forall>r\<in>set rs. \<exists>c. clean_items r = Inr c"
  shows "read_rows d rs = Inl KeyError"
proof (cases rs)
  case Nil
  with assms show ?thesis by simp
next
  case (Cons r rs')
  with assms have "getitem r (Some ''id'') = Inl KeyError" "\<exists>c. clean_items r = Inr c" by simp_all
  then show ?thesis by (auto simp: Cons)
qed

lemma getitem_row_present:
  assumes len: "length r = length fieldnames" and mem: "name \<in> set fieldnames"
  shows "\<exists>v. getitem (DictReader_row fieldnames r) (Some name) = Inr v"
proof -
  from len have "map fst (zip (map Some fieldnames) (map Str r)) = map Some fieldnames"
    by simp
  then have "fst ` set (zip (map Some fieldnames) (map Str r)) = Some ` set fieldnames"
    by (metis list.set_map)
  with mem have "Some name \<in> fst ` set (dict_of (zip (map Some fieldnames) (map Str r)))"
    by (simp add: keys_dict_of)
  then have "map_of (dict_of (zip (map Some fieldnames) (map Str r))) (Some name) \<noteq> None"
    by (simp add: map_of_eq_None_iff)
  then show ?thesis
    by (auto simp: DictReader_row_eq_length [OF len] getitem_def split: option.splits)
qed

lemma read_rows_succeeds:
  assumes "\<forall>r\<in>set rs. (\<exists>c. clean_items r = Inr c) \<and> (\<exists>k. getitem r (Some ''id'') = Inr k)"
  shows "\<exists>d'. read_rows d rs = Inr d'"
  using assms
proof (induction rs arbitrary: d)
  case Nil
  then show ?case by simp
next
  case (Cons r rs)
  from Cons.prems obtain c k where c: "clean_items r = Inr c"
    and k: "getitem r (Some ''id'') = Inr k" by auto
  from Cons.prems have "\<forall>r\<in>set rs. (\<exists>c. clean_items r = Inr c) \<and> (\<exists>k. getitem r (Some ''id'') = Inr k)"
    by simp
  from Cons.IH [OF this, of "dict_set d k (dict_of c)"] show ?case by (simp add: c k)
qed

lemma read_data_succeeds:
  assumes id: "''id'' \<in> set fieldnames"
    and len: "\<forall>r\<in>set rest. r \<noteq> [] \<longrightarrow> length r = length fieldnames"
  shows "\<exists>data_d. read_data (Some (fieldnames # rest)) = Inr data_d"
proof -
  let ?rows = "map (DictReader_row fieldnames) (filter (\<lambda>r. r \<noteq> []) rest)"
  have "\<forall>row\<in>set ?rows. (\<exists>c. clean_items row = Inr c) \<and> (\<exists>k. getitem row (Some ''id'') = Inr k)"
  proof
    fix row assume "row \<in> set ?rows"
    then obtain r where r: "r \<in> set rest" "r \<noteq> []" and row: "row = DictReader_row fieldnames r"
      by auto
    from len r have l: "length r = length fieldnames" by simp
    from clean_row_eq_length [OF l] getitem_row_present [OF l id]
    show "(\<exists>c. clean_items row = Inr c) \<and> (\<exists>k. getitem row (Some ''id'') = Inr k)"
      by (simp add: row)
  qed
  from read_rows_succeeds [OF this] show ?thesis by (simp add: read_data_Some)
qed

lemma read_rows_frame:
  "read_rows d rs = Inr d' \<Longrightarrow> \<forall>r\<in>set rs. getitem r (Some ''id'') \<noteq> Inr k \<Longrightarrow>
   map_of d' k = map_of d k"
proof (induction rs arbitrary: d)
  case Nil
  then show ?case by simp
next
  case (Cons r rs)
  from Cons.prems(1) obtain c k' where k': "getitem r (Some ''id'') = Inr k'"
    and rest: "read_rows (dict_set d k' (dict_of c)) rs = Inr d'"
    by (auto split: sum.splits)
  from Cons.prems(2) k' have ne: "k' \<noteq> k" by auto
  from Cons.prems(2) have "\<forall>r\<in>set rs. getitem r (Some ''id'') \<noteq> Inr k" by simp
  from Cons.IH [OF rest this] ne show ?case by (simp add: map_of_dict_set)
qed

lemma read_rows_last_of_id:
  assumes ok: "read_rows d (pre @ r # post) = Inr d'"
    and k: "getitem r (Some ''id'') = Inr k"
    and later: "\<forall>r'\<in>set post. getitem r' (Some ''id'') \<noteq> Inr k"
  shows "\<exists>c. clean_items r = Inr c \<and> map_of d' k = Some (dict_of c)"
proof -
  from ok obtain d1 where "read_rows d1 (r # post) = Inr d'"
    by (auto simp: read_rows_append split: sum.splits)
  with k obtain c where c: "clean_items r = Inr c"
    and rest: "read_rows (dict_set d1 k (dict_of c)) post = Inr d'"
    by (auto split: sum.splits)
  from read_rows_frame [OF rest later] c show ?thesis by (simp add: map_of_dict_set)
qed

lemma clean_row_bad_length:
  "length r \<noteq> length fieldnames \<Longrightarrow>
   clean_items (DictReader_row fieldnames r) = Inl AttributeError"
  using clean_row_long [of fieldnames r] clean_row_short [of r fieldnames]
  by (cases "length r" "length fieldnames" rule: linorder_cases) auto

lemma read_data_bad_row:
  assumes pre: "read_data (Some (fieldnames # pre)) = Inr d"
    and r: "r \<noteq> []" "length r \<noteq> length fieldnames"
  shows "read_data (Some (fieldnames # pre @ r # post)) = Inl AttributeError"
proof -
  let ?f = "\<lambda>rs. map (DictReader_row fieldnames) (filter (\<lambda>r. r \<noteq> []) rs)"
  from pre have p: "read_rows [] (?f pre) = Inr d" by (simp add: read_data_Some)
  have "?f (pre @ r # post) = ?f pre @ DictReader_row fieldnames r # ?f post"
    using r by simp
  then have "read_rows [] (?f (pre @ r # post)) = read_rows d (DictReader_row fieldnames r # ?f post)"
    by (simp add: read_rows_append p)
  then show ?thesis
    by (simp add: read_data_Some clean_row_bad_length [OF r(2)])
qed

lemma cluster_rows_from_enumerate:
  "cluster_rows_from n clusters
   = concat (map (\<lambda>(cluster_id, records, scores).
                    map (\<lambda>(record_id, score). [PId record_id, PInt cluster_id, PFloat score])
                        (zip records scores))
                 (enumerate n clusters))"
  by (induction n clusters rule: cluster_rows_from.induct) simp_all

section \<open>The record store: \<open>read_data\<close>\<close>

text \<open>
  Claim C10. For every row of the input, the collection \<open>read_data\<close> returns is keyed by
  the value of the \<open>id\<close> column exactly as it stands in the file, while the \<open>id\<close> field
  stored inside the record is the stripped and lower-cased value. So when loading succeeds,
  every non-blank row \<open>r\<close> has a cell \<open>r ! i\<close> under a header name \<open>id\<close> that is
  \<open>row["id"]\<close>, the collection has the key \<open>Str (r ! i)\<close>, and the record under that key has
  \<open>lower (strip (r ! i))\<close> as its \<open>id\<close>; and every key is the \<open>row["id"]\<close> of some row.
  Rows whose identifiers differ only in surrounding whitespace or in letter case therefore
  have different keys, and a key need not be its record's \<open>id\<close>: the witness has the keys
  \<open>'' 1''\<close>, \<open>''1''\<close> and U+00C9 with the stored ids \<open>''1''\<close>, \<open>''1''\<close> and U+00E9.
\<close>

theorem read_data_key_is_raw_id:
  assumes ok: "read_data (Some (fieldnames # rest)) = Inr data_d"
  shows "(\<forall>r\<in>set rest. r \<noteq> [] \<longrightarrow>
            (\<exists>i<length r. fieldnames ! i = ''id'' \<and>
               getitem (DictReader_row fieldnames r) (Some ''id'') = Inr (Str (r ! i)) \<and>
               (\<exists>rec. map_of data_d (Str (r ! i)) = Some rec \<and>
                      map_of rec (Some ''id'') = Some (lower (strip (r ! i))))))
       \<and> (\<forall>k\<in>set (keys data_d). \<exists>r\<in>set rest. r \<noteq> [] \<and>
              getitem (DictReader_row fieldnames r) (Some ''id'') = Inr k)"
proof (intro conjI ballI impI)
  fix r assume r: "r \<in> set rest" "r \<noteq> []"
  from read_data_rows_ok [OF ok r] obtain k where len: "length r = length fieldnames"
    and k: "getitem (DictReader_row fieldnames r) (Some ''id'') = Inr k"
    and mem: "k \<in> fst ` set data_d" by blast
  from getitem_row_index [OF len k] obtain i where i: "i < length r" "fieldnames ! i = ''id''"
    and kv: "k = Str (r ! i)" by blast
  from mem obtain rec where e: "(k, rec) \<in> set data_d" by auto
  from read_data_distinct [OF ok] e have look: "map_of data_d k = Some rec" by simp
  from read_data_entries [OF ok e] obtain r' where len': "length r' = length fieldnames"
    and k': "getitem (DictReader_row fieldnames r') (Some ''id'') = Inr k"
    and rec: "rec = dict_of (zip (map Some fieldnames) (map (\<lambda>s. lower (strip s)) r'))"
    by blast
  from row_field_clean [OF len' k' [unfolded kv]] rec
  have "map_of rec (Some ''id'') = Some (lower (strip (r ! i)))" by simp
  with i k kv look
  show "\<exists>i<length r. fieldnames ! i = ''id'' \<and>
               getitem (DictReader_row fieldnames r) (Some ''id'') = Inr (Str (r ! i)) \<and>
               (\<exists>rec. map_of data_d (Str (r ! i)) = Some rec \<and>
                      map_of rec (Some ''id'') = Some (lower (strip (r ! i))))"
    by blast
next
  fix k assume "k \<in> set (keys data_d)"
  then obtain rec where e: "(k, rec) \<in> set data_d" by (auto simp: keys_def)
  from read_data_entries [OF ok e]
  show "\<exists>r\<in>set rest. r \<noteq> [] \<and> getitem (DictReader_row fieldnames r) (Some ''id'') = Inr k"
    by blast
qed

theorem read_data_key_is_raw_id_witness:
  "read_data (Some ([''id'', ''name''] # [['' 1'', ''Ann''], [''1'', ''Bob''], [[CHR 0xC9], ''Cy'']]))
     = Inr [(Str '' 1'', [(Some ''id'', ''1''), (Some ''name'', ''ann'')]),
            (Str ''1'', [(Some ''id'', ''1''), (Some ''name'', ''bob'')]),
            (Str [CHR 0xC9], [(Some ''id'', [CHR 0xE9]), (Some ''name'', ''cy'')])]
   \<and> (\<exists>i<length ['' 1'', ''Ann'']. [''id'', ''name''] ! i = ''id'' \<and>
        getitem (DictReader_row [''id'', ''name''] ['' 1'', ''Ann'']) (Some ''id'')
        = Inr (Str (['' 1'', ''Ann''] ! i)) \<and>
        (\<exists>rec. map_of [(Str '' 1'', [(Some ''id'', ''1''), (Some ''name'', ''ann'')]),
                        (Str ''1'', [(Some ''id'', ''1''), (Some ''name'', ''bob'')]),
                        (Str [CHR 0xC9], [(Some ''id'', [CHR 0xE9]), (Some ''name'', ''cy'')])]
                   (Str (['' 1'', ''Ann''] ! i)) = Some rec \<and>
               map_of rec (Some ''id'') = Some (lower (strip (['' 1'', ''Ann''] ! i)))))
   \<and> (\<exists>i<length [[CHR 0xC9], ''Cy'']. [''id'', ''name''] ! i = ''id'' \<and>
        getitem (DictReader_row [''id'', ''name''] [[CHR 0xC9], ''Cy'']) (Some ''id'')
        = Inr (Str ([[CHR 0xC9], ''Cy''] ! i)) \<and>
        (\<exists>rec. map_of [(Str '' 1'', [(Some ''id'', ''1''), (Some ''name'', ''ann'')]),
                        (Str ''1'', [(Some ''id'', ''1''), (Some ''name'', ''bob'')]),
                        (Str [CHR 0xC9], [(Some ''id'', [CHR 0xE9]), (Some ''name'', ''cy'')])]
                   (Str ([[CHR 0xC9], ''Cy''] ! i)) = Some rec \<and>
               map_of rec (Some ''id'') = Some (lower (strip ([[CHR 0xC9], ''Cy''] ! i)))))
   \<and> lower (strip '' 1'') = ''1'' \<and> lower (strip [CHR 0xC9]) = [CHR 0xE9]"
proof -
  let ?rest = "[['' 1'', ''Ann''], [''1'', ''Bob''], [[CHR 0xC9], ''Cy'']]"
  let ?d = "[(Str '' 1'', [(Some ''id'', ''1''), (Some ''name'', ''ann'')]),
            (Str ''1'', [(Some ''id'', ''1''), (Some ''name'', ''bob'')]),
            (Str [CHR 0xC9], [(Some ''id'', [CHR 0xE9]), (Some ''name'', ''cy'')])]"
  have h: "read_data (Some ([''id'', ''name''] # ?rest)) = Inr ?d"
    by code_simp
  note a = conjunct1 [OF read_data_key_is_raw_id [OF h]]
  have m1: "['' 1'', ''Ann''] \<in> set ?rest" by simp
  have m2: "[[CHR 0xC9], ''Cy''] \<in> set ?rest" by simp
  have n1: "['' 1'', ''Ann''] \<noteq> []" by simp
  have n2: "[[CHR 0xC9], ''Cy''] \<noteq> []" by simp
  note r1 = mp [OF bspec [OF a m1] n1]
  note r2 = mp [OF bspec [OF a m2] n2]
  have s: "lower (strip '' 1'') = ''1'' \<and> lower (strip [CHR 0xC9]) = [CHR 0xE9]" by code_simp
  show ?thesis by (rule conjI [OF h conjI [OF r1 conjI [OF r2 s]]])
qed

text \<open>
  Claim C4, as amended. \<open>read_data\<close> has no check of its own on the identifier column. When
  the header has no \<open>id\<close> column and every data row is as long as the header, the first data
  row raises \<open>KeyError\<close> from \<open>row["id"]\<close>; when there is no data row at all, loading returns
  the empty collection. A repeated identifier raises nothing: whenever the header has an
  \<open>id\<close> column and every data row is as long as the header, loading succeeds, whatever the
  identifiers are, with one record for each key; and the record stored under an identifier is
  that of the last row that carries it, so a row \<open>row\<close> replaces every row before it with
  the same identifier.
\<close>

theorem read_data_missing_id_and_duplicates:
  "(''id'' \<notin> set fieldnames \<and> (\<exists>r\<in>set rest. r \<noteq> []) \<and>
      (\<forall>r\<in>set rest. r \<noteq> [] \<longrightarrow> length r = length fieldnames)
      \<longrightarrow> read_data (Some (fieldnames # rest)) = Inl KeyError)
   \<and> ((\<forall>r\<in>set rest. r = []) \<longrightarrow> read_data (Some (fieldnames # rest)) = Inr [])
   \<and> (''id'' \<in> set fieldnames \<and> row \<noteq> [] \<and>
       (\<forall>r\<in>set (pre @ row # post). r \<noteq> [] \<longrightarrow> length r = length fieldnames) \<and>
       (\<forall>r\<in>set post. r \<noteq> [] \<longrightarrow>
          getitem (DictReader_row fieldnames r) (Some ''id'')
          \<noteq> getitem (DictReader_row fieldnames row) (Some ''id''))
      \<longrightarrow> (\<exists>data_d. read_data (Some (fieldnames # pre @ row # post)) = Inr data_d \<and>
            distinct (keys data_d) \<and>
            (\<exists>i<length row. fieldnames ! i = ''id'' \<and>
               getitem (DictReader_row fieldnames row) (Some ''id'') = Inr (Str (row ! i)) \<and>
               map_of data_d (Str (row ! i))
               = Some (dict_of (zip (map Some fieldnames) (map (\<lambda>s. lower (strip s)) row))))))"
proof (intro conjI impI)
  let ?rows = "map (DictReader_row fieldnames) (filter (\<lambda>r. r \<noteq> []) rest)"
  assume a: "''id'' \<notin> set fieldnames \<and> (\<exists>r\<in>set rest. r \<noteq> []) \<and>
      (\<forall>r\<in>set rest. r \<noteq> [] \<longrightarrow> length r = length fieldnames)"
  then have ne: "?rows \<noteq> []" by (auto simp: filter_empty_conv)
  from a have nokey: "\<forall>row\<in>set ?rows. getitem row (Some ''id'') = Inl KeyError"
    by (auto simp: getitem_row_missing)
  from a have clean: "\<forall>row\<in>set ?rows. \<exists>c. clean_items row = Inr c"
    by (auto simp: clean_row_eq_length)
  from read_rows_no_id_clean [OF ne nokey clean]
  show "read_data (Some (fieldnames # rest)) = Inl KeyError"
    by (simp add: read_data_Some)
next
  assume "\<forall>r\<in>set rest. r = []"
  then have "filter (\<lambda>r. r \<noteq> []) rest = []" by (simp add: filter_empty_conv)
  then show "read_data (Some (fieldnames # rest)) = Inr []"
    by (simp add: read_data_Some)
next
  let ?f = "\<lambda>rs. map (DictReader_row fieldnames) (filter (\<lambda>r. r \<noteq> []) rs)"
  let ?row = "DictReader_row fieldnames row"
  assume a: "''id'' \<in> set fieldnames \<and> row \<noteq> [] \<and>
       (\<forall>r\<in>set (pre @ row # post). r \<noteq> [] \<longrightarrow> length r = length fieldnames) \<and>
       (\<forall>r\<in>set post. r \<noteq> [] \<longrightarrow>
          getitem (DictReader_row fieldnames r) (Some ''id'')
          \<noteq> getitem (DictReader_row fieldnames row) (Some ''id''))"
  then have id: "''id'' \<in> set fieldnames" and row: "row \<noteq> []"
    and lens: "\<forall>r\<in>set (pre @ row # post). r \<noteq> [] \<longrightarrow> length r = length fieldnames"
    and later: "\<forall>r\<in>set post. r \<noteq> [] \<longrightarrow>
          getitem (DictReader_row fieldnames r) (Some ''id'') \<noteq> getitem ?row (Some ''id'')"
    by blast+
  from read_data_succeeds [OF id lens] obtain data_d
    where ok: "read_data (Some (fieldnames # pre @ row # post)) = Inr data_d" by blast
  from lens row have len: "length row = length fieldnames" by simp
  from getitem_row_present [OF len id] obtain k where k: "getitem ?row (Some ''id'') = Inr k"
    by blast
  have split: "?f (pre @ row # post) = ?f pre @ ?row # ?f post" using row by simp
  from ok have rr: "read_rows [] (?f pre @ ?row # ?f post) = Inr data_d"
    by (simp only: read_data_Some split)
  from later k have later': "\<forall>r'\<in>set (?f post). getitem r' (Some ''id'') \<noteq> Inr k" by auto
  from read_rows_last_of_id [OF rr k later'] obtain c where c: "clean_items ?row = Inr c"
    and look: "map_of data_d k = Some (dict_of c)" by blast
  from c have "dict_of c = dict_of (zip (map Some fieldnames) (map (\<lambda>s. lower (strip s)) row))"
    by (auto simp: clean_row_eq_length [OF len] dict_of_dict_of)
  with getitem_row_index [OF len k] look k
  have "\<exists>i<length row. fieldnames ! i = ''id'' \<and>
               getitem ?row (Some ''id'') = Inr (Str (row ! i)) \<and>
               map_of data_d (Str (row ! i))
               = Some (dict_of (zip (map Some fieldnames) (map (\<lambda>s. lower (strip s)) row)))"
    by auto
  moreover from read_data_distinct [OF ok] have "distinct (keys data_d)" by (simp add: keys_def)
  ultimately
  show "\<exists>data_d. read_data (Some (fieldnames # pre @ row # post)) = Inr data_d \<and>
            distinct (keys data_d) \<and>
            (\<exists>i<length row. fieldnames ! i = ''id'' \<and>
               getitem (DictReader_row fieldnames row) (Some ''id'') = Inr (Str (row ! i)) \<and>
               map_of data_d (Str (row ! i))
               = Some (dict_of (zip (map Some fieldnames) (map (\<lambda>s. lower (strip s)) row))))"
    using ok by blast
qed

theorem read_data_missing_id_and_duplicates_witness:
  "''id'' \<notin> set [''name'']
   \<and> read_data (Some [[''name''], [''Ann'']]) = Inl KeyError
   \<and> read_data (Some [[''name''], []]) = Inr []
   \<and> ''id'' \<in> set [''id'', ''name'']
   \<and> (\<exists>data_d. read_data (Some ([''id'', ''name''] # [[''1'', ''Ann'']] @ [''1'', ''Bob''] # [[''2'', ''Cy'']]))
                 = Inr data_d \<and>
         distinct (keys data_d) \<and>
         (\<exists>i<length [''1'', ''Bob'']. [''id'', ''name''] ! i = ''id'' \<and>
            getitem (DictReader_row [''id'', ''name''] [''1'', ''Bob'']) (Some ''id'')
            = Inr (Str ([''1'', ''Bob''] ! i)) \<and>
            map_of data_d (Str ([''1'', ''Bob''] ! i))
            = Some (dict_of (zip (map Some [''id'', ''name''])
                                 (map (\<lambda>s. lower (strip s)) [''1'', ''Bob''])))))
   \<and> read_data (Some ([''id'', ''name''] # [[''1'', ''Ann'']] @ [''1'', ''Bob''] # [[''2'', ''Cy'']]))
     = Inr [(Str ''1'', [(Some ''id'', ''1''), (Some ''name'', ''bob'')]),
            (Str ''2'', [(Some ''id'', ''2''), (Some ''name'', ''cy'')])]"
proof -
  have n: "''id'' \<notin> set [''name'']" by simp
  have a: "read_data (Some [[''name''], [''Ann'']]) = Inl KeyError"
    using read_data_missing_id_and_duplicates [of "[''name'']" "[[''Ann'']]"] by simp
  have b: "read_data (Some [[''name''], []]) = Inr []"
    using read_data_missing_id_and_duplicates [of "[''name'']" "[[]]"] by simp
  have i: "''id'' \<in> set [''id'', ''name'']" by simp
  have h: "''id'' \<in> set [''id'', ''name''] \<and> [''1'', ''Bob''] \<noteq> [] \<and>
       (\<forall>r\<in>set ([[''1'', ''Ann'']] @ [''1'', ''Bob''] # [[''2'', ''Cy'']]). r \<noteq> [] \<longrightarrow>
          length r = length [''id'', ''name'']) \<and>
       (\<forall>r\<in>set [[''2'', ''Cy'']]. r \<noteq> [] \<longrightarrow>
          getitem (DictReader_row [''id'', ''name''] r) (Some ''id'')
          \<noteq> getitem (DictReader_row [''id'', ''name''] [''1'', ''Bob'']) (Some ''id''))"
    by (simp add: DictReader_row_def dict_of_def getitem_def)
  note t = conjunct2 [OF conjunct2 [OF read_data_missing_id_and_duplicates
      [of "[''id'', ''name'']" _ "[''1'', ''Bob'']" "[[''1'', ''Ann'']]" "[[''2'', ''Cy'']]"]]]
  note c = mp [OF t h]
  have e: "read_data (Some ([''id'', ''name''] # [[''1'', ''Ann'']] @ [''1'', ''Bob''] # [[''2'', ''Cy'']]))
     = Inr [(Str ''1'', [(Some ''id'', ''1''), (Some ''name'', ''bob'')]),
            (Str ''2'', [(Some ''id'', ''2''), (Some ''name'', ''cy'')])]"
    by code_simp
  show ?thesis
    by (rule conjI [OF n conjI [OF a conjI [OF b conjI [OF i conjI [OF c e]]]]])
qed

text \<open>
  The claim as first stated asks for a failure on a duplicated identifier and on a missing
  identifier column. Here the second row replaces the first without an error, and a file
  that is only a header without \<open>id\<close> loads as the empty collection.
\<close>

theorem read_data_overwrites_duplicate_id: "read_data (Some [[''id'', ''name''], [''1'', ''Ann''], [''1'', ''Bob'']])
     = Inr [(Str ''1'', [(Some ''id'', ''1''), (Some ''name'', ''bob'')])]
   \<and> read_data (Some [[''name'']]) = Inr []"
  by code_simp

text \<open>
  Claim C6, as amended. When loading succeeds, every data row is as long as the header, and
  every stored record is \<open>dict(zip(fieldnames, cells))\<close> with each cell replaced by
  \<open>lower (strip cell)\<close>. A cell that is empty or all whitespace is stored as the empty
  string: there is no marker for a missing value. A row with an absent cell, or with a
  surplus one, makes \<open>v.strip()\<close> raise \<open>AttributeError\<close> at that row, so loading fails with
  \<open>AttributeError\<close> when the rows before it load (an earlier row may fail first, with
  \<open>KeyError\<close> when the header has no \<open>id\<close> column).
\<close>

theorem read_data_strips_and_lowers:
  "(read_data (Some (fieldnames # rest)) = Inr data_d \<longrightarrow>
      (\<forall>r\<in>set rest. r \<noteq> [] \<longrightarrow> length r = length fieldnames)
      \<and> (\<forall>(k, rec)\<in>set data_d. \<exists>r\<in>set rest. r \<noteq> [] \<and>
             getitem (DictReader_row fieldnames r) (Some ''id'') = Inr k \<and>
             rec = dict_of (zip (map Some fieldnames) (map (\<lambda>s. lower (strip s)) r))))
   \<and> (\<forall>s. (\<forall>c\<in>set s. isspace c) \<longrightarrow> lower (strip s) = [])
   \<and> (length row \<noteq> length fieldnames \<longrightarrow>
        clean_items (DictReader_row fieldnames row) = Inl AttributeError)
   \<and> (read_data (Some (fieldnames # pre)) = Inr d \<and> row \<noteq> [] \<and> length row \<noteq> length fieldnames
        \<longrightarrow> read_data (Some (fieldnames # pre @ row # post)) = Inl AttributeError)"
proof (intro conjI impI)
  assume ok: "read_data (Some (fieldnames # rest)) = Inr data_d"
  show "\<forall>r\<in>set rest. r \<noteq> [] \<longrightarrow> length r = length fieldnames"
    using read_data_rows_ok [OF ok] by blast
  show "\<forall>(k, rec)\<in>set data_d. \<exists>r\<in>set rest. r \<noteq> [] \<and>
              getitem (DictReader_row fieldnames r) (Some ''id'') = Inr k \<and>
              rec = dict_of (zip (map Some fieldnames) (map (\<lambda>s. lower (strip s)) r))"
    using read_data_entries [OF ok] by blast
next
  show "\<forall>s. (\<forall>c\<in>set s. isspace c) \<longrightarrow> lower (strip s) = []"
    by (simp add: strip_all_space lower_def)
next
  assume "length row \<noteq> length fieldnames"
  then show "clean_items (DictReader_row fieldnames row) = Inl AttributeError"
    by (rule clean_row_bad_length)
next
  assume "read_data (Some (fieldnames # pre)) = Inr d \<and> row \<noteq> [] \<and> length row \<noteq> length fieldnames"
  then show "read_data (Some (fieldnames # pre @ row # post)) = Inl AttributeError"
    using read_data_bad_row by blast
qed

theorem read_data_strips_and_lowers_witness:
  "read_data (Some ([''id'', ''name''] # [[''1'', '' Ann ''], [''2'', '''']]))
     = Inr [(Str ''1'', [(Some ''id'', ''1''), (Some ''name'', ''ann'')]),
            (Str ''2'', [(Some ''id'', ''2''), (Some ''name'', '''')])]
   \<and> length [''2'', ''''] = length [''id'', ''name'']
   \<and> (\<exists>r\<in>set [[''1'', '' Ann ''], [''2'', '''']]. r \<noteq> [] \<and>
         getitem (DictReader_row [''id'', ''name''] r) (Some ''id'') = Inr (Str ''2'') \<and>
         [(Some ''id'', ''2''), (Some ''name'', '''')]
         = dict_of (zip (map Some [''id'', ''name'']) (map (\<lambda>s. lower (strip s)) r)))
   \<and> lower (strip [CHR 0xA0, CHR 0x20]) = ''''
   \<and> lower (strip [CHR 0xA0, CHR 0xC9, CHR 0x85]) = [CHR 0xE9]
   \<and> length [''3''] \<noteq> length [''id'', ''name'']
   \<and> clean_items (DictReader_row [''id'', ''name''] [''3'']) = Inl AttributeError
   \<and> read_data (Some ([''id'', ''name''] # [[''1'', '' Ann ''], [''2'', '''']] @ [''3''] # [])) = Inl AttributeError"
proof -
  let ?rest = "[[''1'', '' Ann ''], [''2'', '''']]"
  let ?d = "[(Str ''1'', [(Some ''id'', ''1''), (Some ''name'', ''ann'')]),
            (Str ''2'', [(Some ''id'', ''2''), (Some ''name'', '''')])]"
  have h: "read_data (Some ([''id'', ''name''] # ?rest)) = Inr ?d"
    by code_simp
  note t = read_data_strips_and_lowers
    [of "[''id'', ''name'']" ?rest ?d "[''3'']" ?rest ?d "[]"]
  note t1 = mp [OF conjunct1 [OF t] h]
  have len: "length [''2'', ''''] = length [''id'', ''name'']" by simp
  note b = conjunct2 [OF t1]
  have mem: "(Str ''2'', [(Some ''id'', ''2''), (Some ''name'', '''')]) \<in> set ?d" by simp
  from bspec [OF b mem]
  have e: "\<exists>r\<in>set ?rest. r \<noteq> [] \<and>
         getitem (DictReader_row [''id'', ''name''] r) (Some ''id'') = Inr (Str ''2'') \<and>
         [(Some ''id'', ''2''), (Some ''name'', '''')]
         = dict_of (zip (map Some [''id'', ''name'']) (map (\<lambda>s. lower (strip s)) r))"
    by (simp only: prod.case)
  note c = conjunct1 [OF conjunct2 [OF t]]
  have "\<forall>c\<in>set [CHR 0xA0, CHR 0x20]. isspace c" by (simp add: isspace_def)
  with c have sp: "lower (strip [CHR 0xA0, CHR 0x20]) = ''''" by blast
  have la: "lower (strip [CHR 0xA0, CHR 0xC9, CHR 0x85]) = [CHR 0xE9]" by code_simp
  have bad: "length [''3''] \<noteq> length [''id'', ''name'']" by simp
  note r1 = mp [OF conjunct1 [OF conjunct2 [OF conjunct2 [OF t]]] bad]
  have n3: "[''3''] \<noteq> []" by simp
  note r2 = mp [OF conjunct2 [OF conjunct2 [OF conjunct2 [OF t]]] conjI [OF h conjI [OF n3 bad]]]
  show ?thesis
    by (rule conjI [OF h conjI [OF len conjI [OF e conjI [OF sp conjI [OF la conjI [OF bad
          conjI [OF r1 r2]]]]]]])
qed

text \<open>
  The claim as first stated asks for a missing marker distinct from the empty string. Here an
  empty cell is stored as the empty string, and a row that lacks the cell fails to load.
\<close>

theorem read_data_keeps_empty_string: "read_data (Some [[''id'', ''name''], [''1'', '''']])
     = Inr [(Str ''1'', [(Some ''id'', ''1''), (Some ''name'', '''')])]
   \<and> read_data (Some [[''id'', ''name''], [''1'']]) = Inl AttributeError"
  by code_simp




section \<open>The field schema: \<open>define_fields\<close>\<close>

text \<open>
  Claim C7, as amended. \<open>define_fields\<close> returns one \<open>String(field, has_missing=True)\<close> for
  each declared name, in order, whatever the loaded records are; it reads \<open>self.fields\<close> only
  and raises nothing.
\<close>

theorem define_fields_ignores_data:
  "define_fields self st = map (\<lambda>field. String field True) (fields_attr self)
   \<and> define_fields self (st\<lparr>data := other\<rparr>) = define_fields self st
   \<and> length (define_fields self st) = length (fields_attr self)"
  by (simp add: define_fields_def)

text \<open>
  The claim as first stated asks for a failure on a declared field that no record carries.
  Here the field \<open>zip\<close> is declared, every record has the fields \<open>id\<close> and \<open>name\<close> only, and a
  definition is returned.
\<close>

theorem define_fields_accepts_unknown_field:
  "define_fields (example_config\<lparr>fields_attr := [''zip'']\<rparr>) example_state = [String ''zip'' True]
   \<and> map keys (map snd (data example_state))
     = [[Some ''id'', Some ''name''], [Some ''id'', Some ''name''], [Some ''id'', Some ''name'']]"
  by code_simp

section \<open>Persistence: \<open>setup_deduper\<close>\<close>

text \<open>
  Claim C2. When a settings file is there and \<open>StaticDedupe\<close> accepts it, \<open>setup_deduper\<close>
  succeeds with the loaded deduper, the only library entry point it calls is \<open>StaticDedupe\<close>
  (so neither \<open>console_label\<close>, the labelling loop with its oracle, nor \<open>train\<close>), and it
  writes no file.
\<close>

theorem setup_deduper_fast_path:
  assumes f: "fs st (settings_file self) = Some content"
    and v: "StaticDedupe L content = Inr d"
  shows "fst (setup_deduper self L st) = Inr ()
       \<and> deduper (snd (setup_deduper self L st)) = Some d
       \<and> calls (snd (setup_deduper self L st)) = calls st @ [CStaticDedupe]
       \<and> CConsoleLabel \<notin> set (drop (length (calls st)) (calls (snd (setup_deduper self L st))))
       \<and> fs (snd (setup_deduper self L st)) = fs st"
  by (simp add: setup_deduper_saved [OF f] v)

theorem setup_deduper_fast_path_witness:
  "fs (example_saved_state\<lparr>fs := (\<lambda>path. if path = ''settings'' then Some [Bytes [''name'']] else None)\<rparr>)
      (settings_file example_config) = Some [Bytes [''name'']]
   \<and> StaticDedupe example_lib [Bytes [''name'']] = Inr [''name'']
   \<and> (fst (setup_deduper example_config example_lib
             (example_saved_state\<lparr>fs := (\<lambda>path. if path = ''settings'' then Some [Bytes [''name'']] else None)\<rparr>))
        = Inr ()
      \<and> deduper (snd (setup_deduper example_config example_lib
             (example_saved_state\<lparr>fs := (\<lambda>path. if path = ''settings'' then Some [Bytes [''name'']] else None)\<rparr>)))
        = Some [''name'']
      \<and> calls (snd (setup_deduper example_config example_lib
             (example_saved_state\<lparr>fs := (\<lambda>path. if path = ''settings'' then Some [Bytes [''name'']] else None)\<rparr>)))
        = calls (example_saved_state\<lparr>fs := (\<lambda>path. if path = ''settings'' then Some [Bytes [''name'']] else None)\<rparr>)
          @ [CStaticDedupe]
      \<and> CConsoleLabel \<notin> set (drop (length (calls (example_saved_state\<lparr>fs := (\<lambda>path. if path = ''settings'' then Some [Bytes [''name'']] else None)\<rparr>)))
           (calls (snd (setup_deduper example_config example_lib
             (example_saved_state\<lparr>fs := (\<lambda>path. if path = ''settings'' then Some [Bytes [''name'']] else None)\<rparr>)))))
      \<and> fs (snd (setup_deduper example_config example_lib
             (example_saved_state\<lparr>fs := (\<lambda>path. if path = ''settings'' then Some [Bytes [''name'']] else None)\<rparr>)))
        = fs (example_saved_state\<lparr>fs := (\<lambda>path. if path = ''settings'' then Some [Bytes [''name'']] else None)\<rparr>))"
proof -
  let ?st = "example_saved_state\<lparr>fs := (\<lambda>path. if path = ''settings'' then Some [Bytes [''name'']] else None)\<rparr>"
  have f: "fs ?st (settings_file example_config) = Some [Bytes [''name'']]"
    by (simp add: example_config_def)
  have v: "StaticDedupe example_lib [Bytes [''name'']] = Inr [''name'']"
    by (simp add: example_lib_def)
  show ?thesis
    by (rule conjI [OF f conjI [OF v setup_deduper_fast_path [OF f v]]])
qed

text \<open>
  Claim C3, as amended. When a settings file is there, \<open>setup_deduper\<close> hands the file to
  \<open>StaticDedupe\<close> and to nothing else: the outcome is the same for every list of declared
  fields, it is an exception exactly when \<open>StaticDedupe\<close> raises one, and no training entry
  point is called. The class compares no schema.
\<close>

theorem setup_deduper_ignores_fields:
  assumes f: "fs st (settings_file self) = Some content"
  shows "setup_deduper (self\<lparr>fields_attr := other\<rparr>) L st = setup_deduper self L st
       \<and> fst (setup_deduper self L st)
         = (case StaticDedupe L content of Inl e \<Rightarrow> Inl e | Inr d \<Rightarrow> Inr ())
       \<and> calls (snd (setup_deduper self L st)) = calls st @ [CStaticDedupe]"
proof -
  from f have f': "fs st (settings_file (self\<lparr>fields_attr := other\<rparr>)) = Some content" by simp
  show ?thesis
    by (simp add: setup_deduper_saved [OF f] setup_deduper_saved [OF f'] split: sum.splits)
qed

theorem setup_deduper_ignores_fields_witness:
  "fs example_saved_state (settings_file example_config) = Some [Bytes [''address'']]
   \<and> (setup_deduper (example_config\<lparr>fields_attr := [''address'']\<rparr>) example_lib example_saved_state
        = setup_deduper example_config example_lib example_saved_state
      \<and> fst (setup_deduper example_config example_lib example_saved_state)
        = (case StaticDedupe example_lib [Bytes [''address'']] of Inl e \<Rightarrow> Inl e | Inr d \<Rightarrow> Inr ())
      \<and> calls (snd (setup_deduper example_config example_lib example_saved_state))
        = calls example_saved_state @ [CStaticDedupe])"
proof -
  have f: "fs example_saved_state (settings_file example_config) = Some [Bytes [''address'']]"
    by (simp add: example_saved_state_def example_config_def)
  show ?thesis
    by (rule conjI [OF f setup_deduper_ignores_fields [OF f]])
qed

text \<open>
  The claim as first stated asks for a failure when the saved schema disagrees with the
  declared fields. Here the settings file was written for \<open>address\<close>, the declared field is
  \<open>name\<close>, and the deduper for \<open>address\<close> is loaded without an error.
\<close>

theorem setup_deduper_loads_mismatched_schema:
  "fields_attr example_config = [''name'']
   \<and> fs example_saved_state (settings_file example_config) = Some [Bytes [''address'']]
   \<and> fst (setup_deduper example_config example_lib example_saved_state) = Inr ()
   \<and> deduper (snd (setup_deduper example_config example_lib example_saved_state)) = Some [''address'']"
  by code_simp

text \<open>
  Claim C8. Saving opens both files in a \<open>with\<close> block, and
  \<open>save_settings_and_training_releases\<close> above shows that it leaves no handle open however
  it ends. Loading does not: \<open>StaticDedupe(open(self.settings_file, "rb"))\<close> opens the
  settings file outside any \<open>with\<close> block and never closes it, so after \<open>setup_deduper\<close>
  the handle is still open, whether \<open>StaticDedupe\<close> succeeded or raised.
\<close>

theorem setup_deduper_leaves_handle_open:
  assumes f: "fs st (settings_file self) = Some content"
  shows "opened (snd (setup_deduper self L st)) = opened st @ [settings_file self]"
  by (simp add: setup_deduper_saved [OF f] split: sum.splits)

theorem setup_deduper_leaves_handle_open_witness:
  "fs example_saved_state (settings_file example_config) = Some [Bytes [''address'']]
   \<and> opened (snd (setup_deduper example_config example_lib example_saved_state))
     = opened example_saved_state @ [settings_file example_config]"
proof -
  have f: "fs example_saved_state (settings_file example_config) = Some [Bytes [''address'']]"
    by (simp add: example_saved_state_def example_config_def)
  show ?thesis
    by (rule conjI [OF f setup_deduper_leaves_handle_open [OF f]])
qed

section \<open>The result emitter: \<open>deduplicate\<close>\<close>

text \<open>
  Claim C1, as amended. When the matcher returns and the output file can be written,
  \<open>deduplicate\<close> succeeds and the output file holds the header and then one row for each pair
  of \<open>zip(records, scores)\<close> of each cluster the matcher returned, in the matcher's order,
  each row carrying the position of its cluster in the matcher's result, counted from 0. The
  identifier column is the concatenation of the matcher's clusters: \<open>deduplicate\<close> adds no
  row for a record the matcher left out, so an identifier is written once exactly when the
  matcher's clusters hold it once.
\<close>

theorem deduplicate_emits_matcher_clusters:
  assumes d: "deduper st = Some d"
    and m: "match L d (data st) (1 / 2) = Inr clusters"
    and w: "output_file self \<notin> set (readonly st)"
  shows "\<exists>out. fst (deduplicate self L st) = Inr ()
           \<and> fs (snd (deduplicate self L st)) (output_file self) = Some out
           \<and> out = CsvRow [PStr ''id'', PStr ''Cluster ID'', PStr ''confidence_score'']
                   # map CsvRow
                       (concat (map (\<lambda>(cluster_id, records, scores).
                                       map (\<lambda>(record_id, score).
                                              [PId record_id, PInt cluster_id, PFloat score])
                                           (zip records scores))
                                    (enumerate 0 clusters)))
           \<and> id_column out
             = concat (map (\<lambda>(records, scores). map fst (zip records scores)) clusters)"
proof -
  let ?out = "map CsvRow (header # cluster_rows clusters) :: 'b chunk list"
  have 1: "fst (deduplicate self L st) = Inr ()"
    by (simp add: deduplicate_ok [OF d m w])
  have 2: "fs (snd (deduplicate self L st)) (output_file self) = Some ?out"
    by (simp add: deduplicate_ok [OF d m w])
  have 3: "?out = CsvRow [PStr ''id'', PStr ''Cluster ID'', PStr ''confidence_score'']
                   # map CsvRow
                       (concat (map (\<lambda>(cluster_id, records, scores).
                                       map (\<lambda>(record_id, score).
                                              [PId record_id, PInt cluster_id, PFloat score])
                                           (zip records scores))
                                    (enumerate 0 clusters)))"
    by (simp only: list.map header_def cluster_rows_def cluster_rows_from_enumerate)
  have 4: "id_column ?out
           = concat (map (\<lambda>(records, scores). map fst (zip records scores)) clusters)"
    by (rule id_column_output)
  show ?thesis
    by (rule exI [of _ ?out]) (rule conjI [OF 1 conjI [OF 2 conjI [OF 3 4]]])
qed

theorem deduplicate_emits_matcher_clusters_witness:
  "deduper (example_state\<lparr>deduper := Some [''name'']\<rparr>) = Some [''name'']
   \<and> match example_lib_all [''name''] (data (example_state\<lparr>deduper := Some [''name'']\<rparr>)) (1 / 2)
       = Inr [([Str ''1'', Str ''2''], [9 / 10, 9 / 10]), ([Str ''3''], [1])]
   \<and> output_file example_config \<notin> set (readonly (example_state\<lparr>deduper := Some [''name'']\<rparr>))
   \<and> fst (deduplicate example_config example_lib_all (example_state\<lparr>deduper := Some [''name'']\<rparr>)) = Inr ()
   \<and> fs (snd (deduplicate example_config example_lib_all (example_state\<lparr>deduper := Some [''name'']\<rparr>)))
         (output_file example_config)
       = Some [CsvRow [PStr ''id'', PStr ''Cluster ID'', PStr ''confidence_score''],
               CsvRow [PId (Str ''1''), PInt 0, PFloat (9 / 10)],
               CsvRow [PId (Str ''2''), PInt 0, PFloat (9 / 10)],
               CsvRow [PId (Str ''3''), PInt 1, PFloat 1]]
   \<and> id_column [CsvRow [PStr ''id'', PStr ''Cluster ID'', PStr ''confidence_score''],
                 CsvRow [PId (Str ''1''), PInt 0, PFloat (9 / 10)],
                 CsvRow [PId (Str ''2''), PInt 0, PFloat (9 / 10)],
                 CsvRow [PId (Str ''3''), PInt 1, PFloat 1] :: string list chunk]
       = [Str ''1'', Str ''2'', Str ''3'']"
proof -
  let ?st = "example_state\<lparr>deduper := Some [''name'']\<rparr>"
  let ?cl = "[([Str ''1'', Str ''2''], [9 / 10, 9 / 10 :: real]), ([Str ''3''], [1])]"
  let ?rows = "[CsvRow [PStr ''id'', PStr ''Cluster ID'', PStr ''confidence_score''],
               CsvRow [PId (Str ''1''), PInt 0, PFloat (9 / 10)],
               CsvRow [PId (Str ''2''), PInt 0, PFloat (9 / 10)],
               CsvRow [PId (Str ''3''), PInt 1, PFloat 1] :: string list chunk]"
  have d: "deduper ?st = Some [''name'']" by simp
  have m: "match example_lib_all [''name''] (data ?st) (1 / 2) = Inr ?cl"
    by (simp add: example_lib_all_def)
  have w: "output_file example_config \<notin> set (readonly ?st)"
    by (simp add: example_state_def)
  from deduplicate_emits_matcher_clusters [OF d m w] obtain out
    where a: "fst (deduplicate example_config example_lib_all ?st) = Inr ()
      \<and> fs (snd (deduplicate example_config example_lib_all ?st)) (output_file example_config) = Some out
      \<and> out = CsvRow [PStr ''id'', PStr ''Cluster ID'', PStr ''confidence_score'']
                   # map CsvRow
                       (concat (map (\<lambda>(cluster_id, records, scores).
                                       map (\<lambda>(record_id, score).
                                              [PId record_id, PInt cluster_id, PFloat score])
                                           (zip records scores))
                                    (enumerate 0 ?cl)))
      \<and> id_column out = concat (map (\<lambda>(records, scores). map fst (zip records scores)) ?cl)"
    by (rule exE)
  note o = conjunct1 [OF a]
  note f = conjunct1 [OF conjunct2 [OF a]]
  note e = conjunct1 [OF conjunct2 [OF conjunct2 [OF a]]]
  note i = conjunct2 [OF conjunct2 [OF conjunct2 [OF a]]]
  from e have e': "out = ?rows" by simp
  from f e' have f': "fs (snd (deduplicate example_config example_lib_all ?st)) (output_file example_config)
       = Some ?rows" by simp
  from i e' have i': "id_column ?rows = [Str ''1'', Str ''2'', Str ''3'']" by simp
  show ?thesis
    by (rule conjI [OF d conjI [OF m conjI [OF w conjI [OF o conjI [OF f' i']]]]])
qed

text \<open>
  The claim as first stated says that every run writes every record identifier once. Here
  three records are loaded, the matcher returns the one cluster of the duplicates \<open>1\<close> and
  \<open>2\<close>, and the run ends well with no row for the record \<open>3\<close>.
\<close>

theorem run_omits_unmatched_record:
  "read_data (Some example_input) = Inr example_data
   \<and> keys (data example_state) = [Str ''1'', Str ''2'', Str ''3'']
   \<and> fst (run example_config example_lib example_state) = Inr ()
   \<and> fs (snd (run example_config example_lib example_state)) ''out.csv''
     = Some [CsvRow [PStr ''id'', PStr ''Cluster ID'', PStr ''confidence_score''],
             CsvRow [PId (Str ''1''), PInt 0, PFloat (9 / 10)],
             CsvRow [PId (Str ''2''), PInt 0, PFloat (9 / 10)]]"
  by code_simp




end
